theory Spec2Isabelle
  imports Main "HOL-Library.Word"
begin

section \<open>Teeworlds map library: the container codec of tml.py\<close>

text \<open>
  The development embeds \<^verbatim>\<open>src/tml/tml.py\<close>: the integer helper \<^verbatim>\<open>int32\<close>, the class
  \<^verbatim>\<open>Header\<close> and the parts of \<^verbatim>\<open>Teemap.load\<close> and \<^verbatim>\<open>Teemap.save\<close> that do the bookkeeping
  of the item directory, the offset tables, the envpoint item and the layer ranges of
  the groups. Python integers are unbounded, so they are \<^typ>\<open>int\<close>; a Python 2 \<^verbatim>\<open>str\<close> is a
  byte string, so it is \<^typ>\<open>string\<close>; every \<^verbatim>\<open>raise\<close> is a value \<open>Inl e\<close>.
\<close>

subsection \<open>Exceptions\<close>

text \<open>
  The exceptions that the modelled code can raise: \<^verbatim>\<open>OverflowError\<close> and \<^verbatim>\<open>TypeError\<close> are
  raised by tml.py itself, \<^verbatim>\<open>struct.error\<close> by \<^verbatim>\<open>pack\<close> and \<^verbatim>\<open>unpack\<close>, the others by the
  interpreter (an unbound local variable, a tuple index out of range, a missing attribute).
\<close>

datatype error =
    OverflowError
  | TypeError string
  | StructError
  | UnboundLocalError
  | IndexError
  | AttributeError

text \<open>The name of the exception class, as a handler would match it.\<close>

fun exception_name :: "error \<Rightarrow> string" where
  "exception_name OverflowError = ''OverflowError''"
| "exception_name (TypeError msg) = ''TypeError''"
| "exception_name StructError = ''struct.error''"
| "exception_name UnboundLocalError = ''UnboundLocalError''"
| "exception_name IndexError = ''IndexError''"
| "exception_name AttributeError = ''AttributeError''"

subsection \<open>int32\<close>

text \<open>
  \<^verbatim>\<open>def int32(x)\<close>, tml.py lines 21 to 30. The second assignment of \<open>x\<close> is the local \<open>y\<close>.
\<close>

definition int32 :: "int \<Rightarrow> error + int" where
  "int32 x =
     (if x > 0xFFFFFFFF then Inl OverflowError
      else if x > 0x7FFFFFFF then
        (let y = 0x100000000 - x in
         if y < 2147483648 then Inr (- y) else Inr (- 2147483648))
      else Inr x)"

subsection \<open>Python sequences\<close>

text \<open>
  Indexing a tuple or list with an integer: a negative index counts from the end, an index
  outside the sequence raises \<^verbatim>\<open>IndexError\<close>.
\<close>

definition py_index :: "'a list \<Rightarrow> int \<Rightarrow> error + 'a" where
  "py_index xs i =
     (if 0 \<le> i \<and> i < int (length xs) then Inr (xs ! nat i)
      else if i < 0 \<and> - int (length xs) \<le> i then Inr (xs ! nat (int (length xs) + i))
      else Inl IndexError)"

text \<open>
  Slicing \<^verbatim>\<open>xs[start:stop]\<close>: both bounds are clipped to the sequence (a negative bound
  counts from the end first), and the slice is empty when they cross. It never raises.
\<close>

definition clip_bound :: "nat \<Rightarrow> int \<Rightarrow> nat" where
  "clip_bound n i = (if i < 0 then nat (max (i + int n) 0) else min (nat i) n)"

definition py_slice :: "'a list \<Rightarrow> int \<Rightarrow> int \<Rightarrow> 'a list" where
  "py_slice xs start stop =
     (let s = clip_bound (length xs) start; e = clip_bound (length xs) stop
      in take (e - s) (drop s xs))"

subsection \<open>The objects of items.py, as tml.py uses them\<close>

text \<open>
  The classes of \<^verbatim>\<open>items.py\<close> are not part of the sources at hand. Each record has the
  attributes that tml.py reads or assigns: \<^verbatim>\<open>layer.type\<close> and \<^verbatim>\<open>layer.is_gamelayer\<close>;
  \<^verbatim>\<open>group.start_layer\<close>, \<^verbatim>\<open>group.num_layers\<close> and \<^verbatim>\<open>group.layers\<close>; \<^verbatim>\<open>envpoint.time\<close>,
  \<^verbatim>\<open>envpoint.curvetype\<close> and \<^verbatim>\<open>envpoint.values\<close> (here \<open>point_values\<close>); \<^verbatim>\<open>item.type\<close>
  (here \<open>item_type\<close>) and \<^verbatim>\<open>item.info\<close>.
\<close>

record layer =
  type :: int
  is_gamelayer :: bool

record group =
  start_layer :: int
  num_layers :: int
  layers :: "layer list"

record envpoint =
  time :: int
  curvetype :: int
  point_values :: "int list"

record item =
  item_type :: string
  info :: "int list"

subsection \<open>Teemap\<close>

text \<open>
  \<^verbatim>\<open>Header.__init__\<close> always sets \<^verbatim>\<open>version\<close> and \<^verbatim>\<open>size\<close> (here \<open>header_size\<close>); the seven
  other attributes exist only when the header was read from a file (\<open>size_field\<close> is
  \<^verbatim>\<open>self.size_\<close>).
\<close>

record header_ints =
  size_field :: int
  swaplen :: int
  num_item_types :: int
  num_items :: int
  num_raw_data :: int
  item_size :: int
  data_size :: int

record header =
  version :: int
  header_size :: int
  file_ints :: "header_ints option"

text \<open>
  A \<^verbatim>\<open>Teemap\<close> has one list per entry of \<^verbatim>\<open>ITEM_TYPES\<close> other than \<^verbatim>\<open>'layer'\<close>, created by
  \<^verbatim>\<open>setattr\<close> under the name of the type followed by \<^verbatim>\<open>'s'\<close>. The lists that tml.py names
  itself are fields; the lists of the other types (\<^verbatim>\<open>versions\<close>, \<^verbatim>\<open>infos\<close>) are in
  \<open>other_lists\<close>, by attribute name. \<open>compressed_data\<close> is \<open>None\<close> until \<^verbatim>\<open>load\<close> or \<^verbatim>\<open>save\<close>
  assigns the attribute. The element types of \<^verbatim>\<open>images\<close> and \<^verbatim>\<open>envelopes\<close> are parameters.
\<close>

record ('i, 'e) teemap =
  header :: header
  images :: "'i list"
  envelopes :: "'e list"
  groups :: "group list"
  envpoints :: "envpoint list"
  other_lists :: "string \<Rightarrow> item list option"
  compressed_data :: "string list option"

text \<open>The property \<^verbatim>\<open>Teemap.layers\<close>, lines 133 to 139: \<^verbatim>\<open>extend\<close> in a loop over the groups.\<close>

fun layers_loop :: "group list \<Rightarrow> layer list \<Rightarrow> layer list" where
  "layers_loop [] layers_acc = layers_acc"
| "layers_loop (g # gs) layers_acc = layers_loop gs (layers_acc @ layers g)"

definition Teemap_layers :: "('i, 'e) teemap \<Rightarrow> layer list" where
  "Teemap_layers t = layers_loop (groups t) []"

text \<open>
  The property \<^verbatim>\<open>Teemap.gamelayer\<close>, lines 141 to 146: the loop returns at the first layer
  whose flag is set; falling off the end of the function returns \<^verbatim>\<open>None\<close>.
\<close>

fun gamelayer_loop :: "layer list \<Rightarrow> layer option" where
  "gamelayer_loop [] = None"
| "gamelayer_loop (l # ls) = (if is_gamelayer l then Some l else gamelayer_loop ls)"

definition gamelayer :: "('i, 'e) teemap \<Rightarrow> layer option" where
  "gamelayer t = gamelayer_loop (Teemap_layers t)"

text \<open>
  \<^verbatim>\<open>getattr(teemap, name)\<close> for the name of a list, reduced to the length of the list (the
  code tests its truth value and takes \<^verbatim>\<open>len\<close>). A name that is no attribute raises
  \<^verbatim>\<open>AttributeError\<close>.
\<close>

definition typelist_len :: "('i, 'e) teemap \<Rightarrow> string \<Rightarrow> error + nat" where
  "typelist_len t name =
     (if name = ''layers'' then Inr (length (Teemap_layers t))
      else if name = ''groups'' then Inr (length (groups t))
      else if name = ''images'' then Inr (length (images t))
      else if name = ''envelopes'' then Inr (length (envelopes t))
      else if name = ''envpoints'' then Inr (length (envpoints t))
      else (case other_lists t name of
              None \<Rightarrow> Inl AttributeError
            | Some xs \<Rightarrow> Inr (length xs)))"

subsection \<open>load: sizes from the offset tables\<close>

text \<open>
  Lines 195 to 199. The variable \<^verbatim>\<open>last_offset\<close> is assigned at the end of every
  iteration, outside the \<^verbatim>\<open>if\<close>; it is \<open>None\<close> while it is unbound. The same loop shape
  computes the lengths passed to \<^verbatim>\<open>f.read\<close> in lines 188 to 191.
\<close>

fun offset_sizes :: "int list \<Rightarrow> int option \<Rightarrow> int list \<Rightarrow> error + (int list \<times> int option)" where
  "offset_sizes [] last_offset sizes = Inr (sizes, last_offset)"
| "offset_sizes (offset # rest) last_offset sizes =
     (if offset > 0 then
        (case last_offset of
           None \<Rightarrow> Inl UnboundLocalError
         | Some lo \<Rightarrow> offset_sizes rest (Some offset) (sizes @ [offset - lo]))
      else offset_sizes rest (Some offset) sizes)"

text \<open>
  The two loops of \<^verbatim>\<open>load\<close> in sequence: the first runs over the data offsets followed by
  \<^verbatim>\<open>header.data_size\<close> with \<^verbatim>\<open>last_offset\<close> unbound, the second over the item offsets
  followed by \<^verbatim>\<open>header.item_size\<close> with the value the first loop left in \<^verbatim>\<open>last_offset\<close>.
  The result is the list of lengths read for the data blocks and the list \<^verbatim>\<open>sizes\<close>.
\<close>

definition load_sizes :: "int list \<Rightarrow> int \<Rightarrow> int list \<Rightarrow> int \<Rightarrow> error + (int list \<times> int list)" where
  "load_sizes data_offsets data_size' item_offsets item_size' =
     (case offset_sizes (data_offsets @ [data_size']) None [] of
        Inl e \<Rightarrow> Inl e
      | Inr (data_lengths, last_offset) \<Rightarrow>
          (case offset_sizes (item_offsets @ [item_size']) last_offset [] of
             Inl e \<Rightarrow> Inl e
           | Inr (sizes, _) \<Rightarrow> Inr (data_lengths, sizes)))"

text \<open>
  The reading of the specification: each size is taken against the last offset that was
  not skipped. It is compared with \<open>offset_sizes\<close> below.
\<close>

fun sizes_last_nonskipped :: "int list \<Rightarrow> int \<Rightarrow> int list" where
  "sizes_last_nonskipped [] last_kept = []"
| "sizes_last_nonskipped (offset # rest) last_kept =
     (if offset > 0 then (offset - last_kept) # sizes_last_nonskipped rest offset
      else sizes_last_nonskipped rest last_kept)"

subsection \<open>load: envpoints and the layers of the groups\<close>

text \<open>
  Modelled from the spec: the constructor \<^verbatim>\<open>items.Envpoint(info)\<close> of items.py, which is
  not among the sources. The specification gives a control point as the 6-integer record
  \<open>{time, curve_type, v0, v1, v2, v3}\<close>; reading a field of a shorter tuple raises
  \<^verbatim>\<open>IndexError\<close>.
\<close>

fun Envpoint :: "int list \<Rightarrow> error + envpoint" where
  "Envpoint (t # c # vs) = Inr \<lparr>time = t, curvetype = c, point_values = vs\<rparr>"
| "Envpoint _ = Inl IndexError"

text \<open>
  Lines 226 to 229: the slices \<^verbatim>\<open>item.info[2+(i*6):2+(i*6+6)]\<close> for \<open>i\<close> in
  \<^verbatim>\<open>range((len(item.info)-2) / 6)\<close>; the division is the floor division of Python 2.
\<close>

definition envpoint_infos :: "int list \<Rightarrow> int list list" where
  "envpoint_infos item_info =
     map (\<lambda>i. py_slice item_info (2 + int i * 6) (2 + (int i * 6 + 6)))
       [0 ..< nat ((int (length item_info) - 2) div 6)]"

fun append_envpoints :: "int list list \<Rightarrow> envpoint list \<Rightarrow> error + envpoint list" where
  "append_envpoints [] eps = Inr eps"
| "append_envpoints (i # is) eps =
     (case Envpoint i of Inl e \<Rightarrow> Inl e | Inr ep \<Rightarrow> append_envpoints is (eps @ [ep]))"

text \<open>
  Lines 222 to 229, the loop over \<^verbatim>\<open>itemlist\<close> with its \<^verbatim>\<open>'envpoint'\<close> branch. (The
  \<^verbatim>\<open>'layer'\<close> branch builds objects of items.py and does not touch \<^verbatim>\<open>self.envpoints\<close>.)
\<close>

fun load_envpoints :: "item list \<Rightarrow> envpoint list \<Rightarrow> error + envpoint list" where
  "load_envpoints [] eps = Inr eps"
| "load_envpoints (it # its) eps =
     (if item_type it = ''envpoint'' then
        (case append_envpoints (envpoint_infos (info it)) eps of
           Inl e \<Rightarrow> Inl e
         | Inr eps' \<Rightarrow> load_envpoints its eps')
      else load_envpoints its eps)"

text \<open>Lines 237 to 241: every group takes its slice of the local list \<^verbatim>\<open>layers\<close>.\<close>

fun assign_layers :: "layer list \<Rightarrow> group list \<Rightarrow> group list" where
  "assign_layers ls [] = []"
| "assign_layers ls (g # gs) =
     (let start = start_layer g; stop = start_layer g + num_layers g
      in g\<lparr>layers := py_slice ls start stop\<rparr> # assign_layers ls gs)"

subsection \<open>save: the envpoint item\<close>

text \<open>
  Lines 289 to 297, where \<open>i\<close> is the index of \<^verbatim>\<open>'envpoint'\<close> in \<^verbatim>\<open>ITEM_TYPES\<close>: the two
  leading integers are \<^verbatim>\<open>i<<16\<close> and the byte length of the records, then every envpoint
  appends its time, its curve type and its values.
\<close>

fun append_values :: "int list \<Rightarrow> int list \<Rightarrow> int list" where
  "append_values [] itemdata = itemdata"
| "append_values (v # vs) itemdata = append_values vs (itemdata @ [v])"

fun append_envpoint_data :: "envpoint list \<Rightarrow> int list \<Rightarrow> int list" where
  "append_envpoint_data [] itemdata = itemdata"
| "append_envpoint_data (ep # eps) itemdata =
     append_envpoint_data eps
       (append_values (point_values ep) (itemdata @ [time ep] @ [curvetype ep]))"

definition save_envpoint_item :: "nat \<Rightarrow> envpoint list \<Rightarrow> int list \<Rightarrow> int list" where
  "save_envpoint_item i eps itemdata =
     append_envpoint_data eps
       (itemdata @ [push_bit 16 (int i)] @ [int (length eps) * 6 * 4])"

subsection \<open>Files and struct\<close>

text \<open>
  A file opened for reading is its content and a position. \<^verbatim>\<open>f.read(n)\<close> returns at most
  \<open>n\<close> bytes, fewer at the end of the file, and all the rest for a negative \<open>n\<close>.
\<close>

record stream =
  content :: string
  pos :: nat

definition read :: "stream \<Rightarrow> int \<Rightarrow> string \<times> stream" where
  "read f n =
     (let rest = drop (pos f) (content f);
          s = (if n < 0 then rest else take (nat n) rest)
      in (s, f\<lparr>pos := pos f + length s\<rparr>))"

text \<open>
  The format \<^verbatim>\<open>'i'\<close> of \<^verbatim>\<open>struct\<close> is a 4-byte integer in two's complement, in the byte
  order of the machine, taken here to be little-endian as the specification has it.
  \<^verbatim>\<open>unpack\<close> raises \<^verbatim>\<open>struct.error\<close> unless the string has exactly the length of the
  format, \<^verbatim>\<open>pack\<close> raises it for an integer outside the 32-bit signed range.
\<close>

fun le_value :: "string \<Rightarrow> int" where
  "le_value [] = 0"
| "le_value (b # bs) = of_char b + 256 * le_value bs"

definition signed32 :: "int \<Rightarrow> int" where
  "signed32 u = (if 2147483648 \<le> u then u - 4294967296 else u)"

fun unpack_ints :: "nat \<Rightarrow> string \<Rightarrow> int list" where
  "unpack_ints 0 s = []"
| "unpack_ints (Suc n) s = signed32 (le_value (take 4 s)) # unpack_ints n (drop 4 s)"

definition unpack_i :: "int \<Rightarrow> string \<Rightarrow> error + int list" where
  "unpack_i n s =
     (if n < 0 \<or> int (length s) \<noteq> 4 * n then Inl StructError
      else Inr (unpack_ints (nat n) s))"

definition unpack_4c :: "string \<Rightarrow> error + string list" where
  "unpack_4c s = (if length s = 4 then Inr (map (\<lambda>c. [c]) s) else Inl StructError)"

fun le_bytes :: "nat \<Rightarrow> int \<Rightarrow> string" where
  "le_bytes 0 u = []"
| "le_bytes (Suc n) u = char_of u # le_bytes n (u div 256)"

definition pack_int :: "int \<Rightarrow> error + string" where
  "pack_int x =
     (if - 2147483648 \<le> x \<and> x \<le> 2147483647 then Inr (le_bytes 4 (x mod 4294967296))
      else Inl StructError)"

fun pack_ints :: "int list \<Rightarrow> error + string" where
  "pack_ints [] = Inr []"
| "pack_ints (x # xs) =
     (case pack_int x of
        Inl e \<Rightarrow> Inl e
      | Inr b \<Rightarrow> (case pack_ints xs of Inl e \<Rightarrow> Inl e | Inr bs \<Rightarrow> Inr (b @ bs)))"

text \<open>
  Line 373, the only call of \<^verbatim>\<open>int32\<close>: every integer of the item data is written as
  \<^verbatim>\<open>pack('i', int32(data))\<close>.
\<close>

definition write_int :: "int \<Rightarrow> error + string" where
  "write_int data = (case int32 data of Inl e \<Rightarrow> Inl e | Inr x \<Rightarrow> pack_int x)"

subsection \<open>The constants of constants.py and items.py\<close>

text \<open>
  Neither \<^verbatim>\<open>constants.py\<close> nor \<^verbatim>\<open>items.py\<close> is among the sources, so the tables
  \<^verbatim>\<open>ITEM_TYPES\<close> and \<^verbatim>\<open>LAYER_TYPES\<close> and the class attributes \<^verbatim>\<open>size\<close> that \<^verbatim>\<open>Header.write\<close>
  reads are parameters of the functions that use them.
\<close>

record constants =
  ITEM_TYPES :: "string list"
  LAYER_TYPES :: "string list"
  Image_size :: int
  Envelope_size :: int
  Group_size :: int
  TileLayer_size :: int
  QuadLayer_size :: int

subsection \<open>Header\<close>

text \<open>
  \<^verbatim>\<open>Header.__init__\<close> with no file, lines 39 to 42 and 61, and with a file, lines 43 to
  61. A raised exception ends the call; otherwise the header and the file at its new
  position are returned.
\<close>

definition Header_new :: header where
  "Header_new = \<lparr>version = 4, header_size = 0 + 36, file_ints = None\<rparr>"

definition Header_init :: "stream \<Rightarrow> error + (header \<times> stream)" where
  "Header_init f =
     (let (s, f1) = read f 4 in
      case unpack_4c s of
        Inl e \<Rightarrow> Inl e
      | Inr cs \<Rightarrow>
          (let sig = concat cs in
           if sig \<notin> set [''DATA'', ''ATAD''] then Inl (TypeError ''Invalid signature'')
           else
             (let (s', f2) = read f1 32 in
              case unpack_i 8 s' of
                Inl e \<Rightarrow> Inl e
              | Inr vals \<Rightarrow>
                  (let ints = \<lparr>size_field = vals ! 1, swaplen = vals ! 2,
                               num_item_types = vals ! 3, num_items = vals ! 4,
                               num_raw_data = vals ! 5, item_size = vals ! 6,
                               data_size = vals ! 7\<rparr>
                   in if vals ! 0 \<noteq> 4 then Inl (TypeError ''Wrong version'')
                      else
                        (let size1 = num_item_types ints * 12;
                             size2 = size1 + (num_items ints + num_raw_data ints) * 4;
                             size3 = size2 + num_raw_data ints * 4;
                             size4 = size3 + item_size ints
                         in Inr (\<lparr>version = vals ! 0, header_size = size4 + 36,
                                   file_ints = Some ints\<rparr>, f2))))))"

text \<open>
  Whether a result is an exception of the class with the given name.
\<close>

definition raises :: "error + 'a \<Rightarrow> string \<Rightarrow> bool" where
  "raises r name = (case r of Inl e \<Rightarrow> exception_name e = name | Inr v \<Rightarrow> False)"

text \<open>
  \<^verbatim>\<open>Header.write\<close>, lines 63 to 115. The first loop copies \<^verbatim>\<open>teemap.compressed_data\<close> into
  \<^verbatim>\<open>datas\<close> and adds up the lengths, the second adds up the sizes of the layers, the third
  counts the item types of \<^verbatim>\<open>ITEM_TYPES[2:]\<close> other than \<^verbatim>\<open>'envpoint'\<close> whose list is not
  empty. (The first assignment to \<^verbatim>\<open>item_size\<close>, line 74, is overwritten in line 94 and
  raises nothing.) The result is the 36 bytes written to the file. Locals that share
  their name with an attribute of the header carry a prime.
\<close>

fun collect_datas :: "string list \<Rightarrow> string list \<Rightarrow> int \<Rightarrow> string list \<times> int" where
  "collect_datas [] datas dsize = (datas, dsize)"
| "collect_datas (d # ds) datas dsize = collect_datas ds (datas @ [d]) (dsize + int (length d))"

fun layers_size_loop :: "constants \<Rightarrow> layer list \<Rightarrow> int \<Rightarrow> error + int" where
  "layers_size_loop c [] layers_size = Inr layers_size"
| "layers_size_loop c (l # ls) layers_size =
     (case py_index (LAYER_TYPES c) (type l) of
        Inl e \<Rightarrow> Inl e
      | Inr name \<Rightarrow>
          (if name = ''tile'' then layers_size_loop c ls (layers_size + TileLayer_size c)
           else layers_size_loop c ls (layers_size + QuadLayer_size c)))"

fun count_item_types :: "('i, 'e) teemap \<Rightarrow> string list \<Rightarrow> int \<Rightarrow> error + int" where
  "count_item_types t [] n = Inr n"
| "count_item_types t (ty # tys) n =
     (if ty = ''envpoint'' then count_item_types t tys n
      else
        (case typelist_len t (ty @ ''s'') of
           Inl e \<Rightarrow> Inl e
         | Inr len \<Rightarrow> count_item_types t tys (if len \<noteq> 0 then n + 1 else n)))"

definition header_values :: "constants \<Rightarrow> ('i, 'e) teemap \<Rightarrow> error + int list" where
  "header_values c teemap =
     (case compressed_data teemap of
        None \<Rightarrow> Inl AttributeError
      | Some cd \<Rightarrow>
          (let (datas, data_size') = collect_datas cd [] 0 in
           case layers_size_loop c (Teemap_layers teemap) 0 of
             Inl e \<Rightarrow> Inl e
           | Inr layers_size \<Rightarrow>
               (let version_size = 4 + 8;
                    envelopes_size = int (length (envelopes teemap)) * Envelope_size c;
                    groups_size = int (length (groups teemap)) * Group_size c;
                    envpoints_size = int (length (envpoints teemap)) * 24 + 8;
                    images_size = int (length (images teemap)) * Image_size c;
                    item_size' = version_size + groups_size + layers_size + envelopes_size
                                 + images_size + envpoints_size;
                    num_items' = int (length (envelopes teemap) + length (groups teemap)
                                      + length (Teemap_layers teemap) + length (images teemap)) + 2
                in case count_item_types teemap (drop 2 (ITEM_TYPES c)) 2 of
                     Inl e \<Rightarrow> Inl e
                   | Inr num_item_types' \<Rightarrow>
                       (let num_raw_data' = int (length datas);
                            header_size' = 36;
                            type_size = num_item_types' * 12;
                            offset_size = (num_items' + 2 * num_raw_data') * 4;
                            size' = header_size' + type_size + offset_size + item_size'
                                    + data_size' - 16;
                            swaplen' = size' - data_size'
                        in Inr [4, size', swaplen', num_item_types', num_items',
                                num_raw_data', item_size', data_size']))))"

definition Header_write :: "constants \<Rightarrow> ('i, 'e) teemap \<Rightarrow> error + string" where
  "Header_write c teemap =
     (case header_values c teemap of
        Inl e \<Rightarrow> Inl e
      | Inr vals \<Rightarrow>
          (case pack_ints vals of
             Inl e \<Rightarrow> Inl e
           | Inr bs \<Rightarrow> Inr (''DATA'' @ bs)))"

subsection \<open>save: the item types\<close>

text \<open>
  Lines 254 to 276. An entry of \<^verbatim>\<open>item_types_data\<close> is a dictionary with the keys
  \<^verbatim>\<open>'type'\<close>, \<^verbatim>\<open>'start'\<close> and \<^verbatim>\<open>'num'\<close>, here a record. The loop runs over \<^verbatim>\<open>enumerate(ITEM_TYPES)\<close>.
\<close>

record item_type_entry =
  entry_type :: nat
  entry_start :: int
  entry_num :: int

fun item_types_loop ::
  "('i, 'e) teemap \<Rightarrow> (nat \<times> string) list \<Rightarrow> item_type_entry list \<Rightarrow> int \<Rightarrow>
     error + (item_type_entry list \<times> int)" where
  "item_types_loop t [] item_types_data count = Inr (item_types_data, count)"
| "item_types_loop t ((i, ty) # rest) item_types_data count =
     (if ty = ''info'' then item_types_loop t rest item_types_data count
      else if ty \<in> set [''version'', ''envpoint''] then
        item_types_loop t rest
          (item_types_data @ [\<lparr>entry_type = i, entry_start = count, entry_num = 1\<rparr>]) (count + 1)
      else
        (case typelist_len t (ty @ ''s'') of
           Inl e \<Rightarrow> Inl e
         | Inr len \<Rightarrow>
             (if len \<noteq> 0 then
                item_types_loop t rest
                  (item_types_data @ [\<lparr>entry_type = i, entry_start = count, entry_num = int len\<rparr>])
                  (count + int len)
              else item_types_loop t rest item_types_data count)))"

definition save_item_types :: "constants \<Rightarrow> ('i, 'e) teemap \<Rightarrow> error + item_type_entry list" where
  "save_item_types c t =
     (case item_types_loop t (enumerate 0 (ITEM_TYPES c)) [] 0 of
        Inl e \<Rightarrow> Inl e
      | Inr (item_types_data, count) \<Rightarrow> Inr item_types_data)"

text \<open>
  The occurrences of an item type in a map, as \<^verbatim>\<open>save\<close> counts them for the directory:
  none for \<^verbatim>\<open>'info'\<close>, which is never written; one for \<^verbatim>\<open>'version'\<close> and one for
  \<^verbatim>\<open>'envpoint'\<close>, since one version item and one envpoint item holding all envpoints are
  always written; and for every other type the length of its list.
\<close>

definition occurrences :: "('i, 'e) teemap \<Rightarrow> string \<Rightarrow> int" where
  "occurrences t ty =
     (if ty = ''info'' then 0
      else if ty = ''version'' \<or> ty = ''envpoint'' then 1
      else (case typelist_len t (ty @ ''s'') of Inl e \<Rightarrow> 0 | Inr len \<Rightarrow> int len))"

subsection \<open>Example values\<close>

text \<open>
  A map of the shape that \<^verbatim>\<open>create_default\<close> builds: a background group with one quad
  layer, then a game group with one tile layer that is the game layer.
\<close>

definition quad_layer_ex :: layer where
  "quad_layer_ex = \<lparr>type = 3, is_gamelayer = False\<rparr>"

definition game_layer_ex :: layer where
  "game_layer_ex = \<lparr>type = 2, is_gamelayer = True\<rparr>"

definition background_group_ex :: group where
  "background_group_ex = \<lparr>start_layer = 0, num_layers = 1, layers = [quad_layer_ex]\<rparr>"

definition game_group_ex :: group where
  "game_group_ex = \<lparr>start_layer = 1, num_layers = 1, layers = [game_layer_ex]\<rparr>"

definition two_group_map :: "(unit, unit) teemap" where
  "two_group_map =
     \<lparr>header = \<lparr>version = 4, header_size = 36, file_ints = None\<rparr>,
      images = [], envelopes = [],
      groups = [background_group_ex, game_group_ex],
      envpoints = [],
      other_lists = [''versions'' \<mapsto> [], ''infos'' \<mapsto> []],
      compressed_data = None\<rparr>"

text \<open>Example constants: the item types with \<^verbatim>\<open>'envpoint'\<close> last, and sizes in bytes.\<close>

definition constants_ex :: constants where
  "constants_ex =
     \<lparr>ITEM_TYPES = [''version'', ''info'', ''image'', ''envelope'', ''group'', ''layer'', ''envpoint''],
      LAYER_TYPES = [''invalid'', ''game'', ''tile'', ''quad''],
      Image_size = 32, Envelope_size = 56, Group_size = 68,
      TileLayer_size = 68, QuadLayer_size = 36\<rparr>"

section \<open>Theorems\<close>

subsection \<open>int32\<close>

lemma int32_unsigned_range:
  "0x7FFFFFFF < x \<Longrightarrow> x \<le> 0xFFFFFFFF \<Longrightarrow> int32 x = Inr (x - 0x100000000)"
  by (simp add: int32_def Let_def)

lemma int32_signed_range: "x \<le> 0x7FFFFFFF \<Longrightarrow> int32 x = Inr x"
  by (simp add: int32_def)

text \<open>
  Claim C3. \<^verbatim>\<open>int32\<close> maps the unsigned value 0xFFFFFFFF to -1, maps 0x80000000 to
  -2147483648, and raises \<^verbatim>\<open>OverflowError\<close> for every input strictly greater than
  0xFFFFFFFF.
\<close>

theorem int32_wraparound:
  "int32 0xFFFFFFFF = Inr (- 1) \<and>
   int32 0x80000000 = Inr (- 2147483648) \<and>
   (\<forall>x. x > 0xFFFFFFFF \<longrightarrow> int32 x = Inl OverflowError)"
  by (simp add: int32_def Let_def)

theorem int32_wraparound_witness:
  "(0x100000000 :: int) > 0xFFFFFFFF \<and> int32 0x100000000 = Inl OverflowError \<and>
   int32 0xFFFFFFFF = Inr (- 1) \<and> int32 0x80000000 = Inr (- 2147483648)"
  using int32_wraparound by simp

text \<open>
  Below the signed range \<^verbatim>\<open>int32\<close> has no guard: the value takes neither \<^verbatim>\<open>if\<close> and is
  returned unchanged. The write of line 373 still fails for it, but in \<^verbatim>\<open>pack\<close> and with
  \<^verbatim>\<open>struct.error\<close>.
\<close>

lemma write_int_below_range:
  "x < - 2147483648 \<Longrightarrow> int32 x = Inr x \<and> write_int x = Inl StructError"
  by (simp add: write_int_def int32_def pack_int_def)

lemma write_int_above_range: "0xFFFFFFFF < x \<Longrightarrow> write_int x = Inl OverflowError"
  by (simp add: write_int_def int32_def)

text \<open>
  Claim C9, the code at -2147483649. The claim asks for \<^verbatim>\<open>OverflowError\<close> from the packing
  function for every value below -2147483648, as the guard of \<^verbatim>\<open>int32\<close> raises it for the
  values above 0xFFFFFFFF. Here \<^verbatim>\<open>int32\<close> returns the value unchanged and raises nothing,
  and the write fails later with \<^verbatim>\<open>struct.error\<close>; one step above the unsigned range the
  same write fails with \<^verbatim>\<open>OverflowError\<close>.
\<close>

theorem int32_below_range_missing_guard:
  "int32 (- 2147483649) = Inr (- 2147483649) \<and>
   \<not> raises (int32 (- 2147483649)) ''OverflowError'' \<and>
   write_int (- 2147483649) = Inl StructError \<and>
   \<not> raises (write_int (- 2147483649)) ''OverflowError'' \<and>
   write_int 0x100000000 = Inl OverflowError"
  by (simp add: write_int_def int32_def pack_int_def raises_def)

subsection \<open>layers and gamelayer\<close>

lemma layers_loop_concat: "layers_loop gs layers_acc = layers_acc @ concat (map layers gs)"
  by (induction gs arbitrary: layers_acc) simp_all

lemma gamelayer_loop_none: "(\<forall>l \<in> set ls. \<not> is_gamelayer l) \<Longrightarrow> gamelayer_loop ls = None"
  by (induction ls) simp_all

lemma gamelayer_loop_first:
  "(\<forall>x \<in> set pre. \<not> is_gamelayer x) \<Longrightarrow> is_gamelayer l \<Longrightarrow>
   gamelayer_loop (pre @ l # post) = Some l"
  by (induction pre) simp_all

lemma gamelayer_loop_some:
  assumes "\<exists>l \<in> set ls. is_gamelayer l"
  shows "\<exists>pre l post. ls = pre @ l # post \<and> (\<forall>x \<in> set pre. \<not> is_gamelayer x) \<and>
           is_gamelayer l \<and> gamelayer_loop ls = Some l"
proof -
  from assms obtain pre l post where
    split: "ls = pre @ l # post" "is_gamelayer l" "\<forall>x \<in> set pre. \<not> is_gamelayer x"
    using split_list_first_prop [of ls is_gamelayer] by blast
  then have "gamelayer_loop ls = Some l"
    by (simp add: gamelayer_loop_first)
  with split show ?thesis by blast
qed

text \<open>
  Claim C10. \<^verbatim>\<open>Teemap.layers\<close> is the concatenation of the layers of the groups, in group
  order. When no layer of it has the game layer flag, \<^verbatim>\<open>Teemap.gamelayer\<close> returns \<^verbatim>\<open>None\<close>
  (the model has no error branch: the accessor raises nothing). When some layer has the
  flag, it returns the first such layer of the flattened list: the list splits into a
  prefix without the flag, the returned layer, and a rest; and whenever the list splits
  so, the layer after the prefix is the one returned.
\<close>

theorem gamelayer_first:
  "Teemap_layers t = concat (map layers (groups t)) \<and>
   ((\<forall>l \<in> set (Teemap_layers t). \<not> is_gamelayer l) \<longrightarrow> gamelayer t = None) \<and>
   ((\<exists>l \<in> set (Teemap_layers t). is_gamelayer l) \<longrightarrow>
      (\<exists>pre l post. Teemap_layers t = pre @ l # post \<and> (\<forall>x \<in> set pre. \<not> is_gamelayer x) \<and>
         is_gamelayer l \<and> gamelayer t = Some l)) \<and>
   (\<forall>pre l post. Teemap_layers t = pre @ l # post \<and> (\<forall>x \<in> set pre. \<not> is_gamelayer x) \<and>
         is_gamelayer l \<longrightarrow> gamelayer t = Some l)"
proof -
  have "Teemap_layers t = concat (map layers (groups t))"
    by (simp add: Teemap_layers_def layers_loop_concat)
  moreover have "(\<forall>l \<in> set (Teemap_layers t). \<not> is_gamelayer l) \<longrightarrow> gamelayer t = None"
    by (simp add: gamelayer_def gamelayer_loop_none)
  moreover have "(\<exists>l \<in> set (Teemap_layers t). is_gamelayer l) \<longrightarrow>
      (\<exists>pre l post. Teemap_layers t = pre @ l # post \<and> (\<forall>x \<in> set pre. \<not> is_gamelayer x) \<and>
         is_gamelayer l \<and> gamelayer t = Some l)"
    unfolding gamelayer_def using gamelayer_loop_some [of "Teemap_layers t"] by blast
  moreover have "\<forall>pre l post. Teemap_layers t = pre @ l # post \<and>
      (\<forall>x \<in> set pre. \<not> is_gamelayer x) \<and> is_gamelayer l \<longrightarrow> gamelayer t = Some l"
    by (simp add: gamelayer_def gamelayer_loop_first)
  ultimately show ?thesis by blast
qed

theorem gamelayer_first_witness:
  "gamelayer (two_group_map\<lparr>groups := [background_group_ex]\<rparr>) = None \<and>
   Teemap_layers two_group_map = [quad_layer_ex] @ game_layer_ex # [] \<and>
   \<not> is_gamelayer quad_layer_ex \<and> is_gamelayer game_layer_ex \<and>
   gamelayer two_group_map = Some game_layer_ex"
proof -
  let ?t0 = "two_group_map\<lparr>groups := [background_group_ex]\<rparr>"
  have flags: "\<not> is_gamelayer quad_layer_ex" "is_gamelayer game_layer_ex"
    by (simp_all add: quad_layer_ex_def game_layer_ex_def)
  have "Teemap_layers ?t0 = [quad_layer_ex]"
    by (simp add: Teemap_layers_def background_group_ex_def)
  with flags have "\<forall>l \<in> set (Teemap_layers ?t0). \<not> is_gamelayer l" by simp
  with gamelayer_first [of ?t0] have none: "gamelayer ?t0 = None" by blast
  have split: "Teemap_layers two_group_map = [quad_layer_ex] @ game_layer_ex # []"
    by (simp add: Teemap_layers_def two_group_map_def background_group_ex_def game_group_ex_def)
  with flags have "Teemap_layers two_group_map = [quad_layer_ex] @ game_layer_ex # [] \<and>
      (\<forall>x \<in> set [quad_layer_ex]. \<not> is_gamelayer x) \<and> is_gamelayer game_layer_ex" by simp
  with gamelayer_first [of two_group_map] have "gamelayer two_group_map = Some game_layer_ex"
    by blast
  with none split flags show ?thesis by blast
qed

subsection \<open>Slices and the layers of the groups\<close>

lemma py_slice_nonneg:
  "0 \<le> start \<Longrightarrow> 0 \<le> stop \<Longrightarrow>
   py_slice xs start stop = take (nat stop - nat start) (drop (nat start) xs)"
  by (cases "nat start \<le> length xs"; cases "nat stop \<le> length xs")
     (simp_all add: py_slice_def clip_bound_def Let_def min_def)

lemma py_slice_beyond:
  "0 \<le> start \<Longrightarrow> int (length xs) \<le> stop \<Longrightarrow> py_slice xs start stop = drop (nat start) xs"
  by (simp add: py_slice_nonneg)

lemma length_assign_layers: "length (assign_layers ls gs) = length gs"
  by (induction gs) (simp_all add: Let_def)

lemma nth_assign_layers:
  "k < length gs \<Longrightarrow>
   assign_layers ls gs ! k =
     (gs ! k)\<lparr>layers := py_slice ls (start_layer (gs ! k)) (start_layer (gs ! k) + num_layers (gs ! k))\<rparr>"
proof (induction gs arbitrary: k)
  case Nil
  then show ?case by simp
next
  case (Cons g gs)
  then show ?case by (cases k) (simp_all add: Let_def)
qed

text \<open>
  Claim C6, as the code has it. The slice of a list never raises: a group whose range
  \<open>start_layer + num_layers\<close> is 3 gets the one layer that exists, and \<^verbatim>\<open>load\<close> goes on.
\<close>

theorem assign_layers_counterexample:
  "int (length [game_layer_ex]) < start_layer \<lparr>start_layer = 0, num_layers = 3, layers = []\<rparr> +
       num_layers \<lparr>start_layer = 0, num_layers = 3, layers = []\<rparr> \<and>
   assign_layers [game_layer_ex] [\<lparr>start_layer = 0, num_layers = 3, layers = []\<rparr>] =
     [\<lparr>start_layer = 0, num_layers = 3, layers = [game_layer_ex]\<rparr>]"
  by (simp add: py_slice_def clip_bound_def)

text \<open>
  Claim C6, amended. Assigning the layers to the groups never fails (\<open>assign_layers\<close> has
  no error branch, and returns one group per group). A group with a non-negative
  \<open>start_layer\<close> and a positive \<open>num_layers\<close> whose range exceeds the length of the flat
  layer list gets the truncated slice, the layers from \<open>start_layer\<close> to the end of the
  list, which are fewer than \<open>num_layers\<close>.
\<close>

theorem assign_layers_truncates:
  assumes "k < length gs"
    and "0 \<le> start_layer (gs ! k)" and "0 < num_layers (gs ! k)"
    and "int (length ls) < start_layer (gs ! k) + num_layers (gs ! k)"
  shows "length (assign_layers ls gs) = length gs \<and>
         assign_layers ls gs ! k = (gs ! k)\<lparr>layers := drop (nat (start_layer (gs ! k))) ls\<rparr> \<and>
         int (length (layers (assign_layers ls gs ! k))) < num_layers (gs ! k)"
  using assms by (simp add: length_assign_layers nth_assign_layers py_slice_beyond)

theorem assign_layers_truncates_witness:
  "(0::nat) < length [background_group_ex, game_group_ex\<lparr>num_layers := 2\<rparr>] \<and>
   (0::int) \<le> 1 \<and> (0::int) < 2 \<and> int (length [quad_layer_ex, game_layer_ex]) < 1 + 2 \<and>
   assign_layers [quad_layer_ex, game_layer_ex] [background_group_ex, game_group_ex\<lparr>num_layers := 2\<rparr>] ! 1 =
     \<lparr>start_layer = 1, num_layers = 2, layers = [game_layer_ex]\<rparr>"
  using assign_layers_truncates
    [of 1 "[background_group_ex, game_group_ex\<lparr>num_layers := 2\<rparr>]" "[quad_layer_ex, game_layer_ex]"]
  by (simp add: game_group_ex_def)

subsection \<open>Sizes from the offset tables\<close>

lemma offset_sizes_bound:
  "offset_sizes offs (Some lo) sizes =
     Inr (sizes @ map (\<lambda>(p, offset). offset - p)
                    (filter (\<lambda>(p, offset). 0 < offset) (zip (lo # offs) offs)),
          Some (last (lo # offs)))"
  by (induction offs arbitrary: lo sizes) simp_all

lemma offset_sizes_unbound:
  "offset_sizes (offset # offs) None sizes =
     (if 0 < offset then Inl UnboundLocalError else offset_sizes offs (Some offset) sizes)"
  by simp

text \<open>
  With no raw data and a positive \<^verbatim>\<open>data_size\<close> the first loop reads \<^verbatim>\<open>last_offset\<close>
  before any assignment. When the first item offset is positive, its size is taken
  against the value that the data loop left behind, \<^verbatim>\<open>header.data_size\<close>.
\<close>

lemma load_sizes_unbound: "load_sizes [] 100 [0, 12] 20 = Inl UnboundLocalError"
  by (simp add: load_sizes_def)

lemma load_sizes_leftover: "load_sizes [0] 100 [4] 10 = Inr ([100], [- 96, 6])"
  by (simp add: load_sizes_def)

text \<open>
  Claim C5, as the code has it. In the table \<open>0, 8, 0\<close> followed by the item size 20, the
  size of the last entry is taken against the skipped offset 0 before it and is 20;
  against the last offset that was not skipped, 8, it would be 12.
\<close>

theorem offset_sizes_counterexample:
  "load_sizes [0] 5 [0, 8, 0] 20 = Inr ([5], [8, 20]) \<and>
   sizes_last_nonskipped ([0, 8, 0] @ [20]) 0 = [8, 12] \<and>
   offset_sizes ([0, 8, 0] @ [20]) (Some 0) [] \<noteq> Inr (sizes_last_nonskipped ([0, 8, 0] @ [20]) 0, Some 20)"
  by (simp add: load_sizes_def)

text \<open>
  Claim C5, amended. In both loops an offset that is not positive yields no size, and the
  size of every other entry is the offset minus the offset just before it in the table,
  whether that one was skipped or not (\<open>lo\<close> is the value of \<^verbatim>\<open>last_offset\<close> when the loop
  reaches the table). So the size computed right after a skipped offset is positive:
  consecutive zero offsets never produce negative sizes.
\<close>

theorem offset_sizes_previous:
  "offset_sizes offs (Some lo) [] =
     Inr (map (\<lambda>(p, offset). offset - p)
            (filter (\<lambda>(p, offset). 0 < offset) (zip (lo # offs) offs)),
          Some (last (lo # offs))) \<and>
   (\<forall>(p, offset) \<in> set (zip (lo # offs) offs). p \<le> 0 \<and> 0 < offset \<longrightarrow> 0 < offset - p)"
  by (auto simp add: offset_sizes_bound)

theorem offset_sizes_previous_witness:
  "offset_sizes [0, 0, 5, 9] (Some 0) [] = Inr ([5, 4], Some 9) \<and>
   (0, 5) \<in> set (zip (0 # [0, 0, 5, 9]) [0, 0, 5, 9 :: int]) \<and> (0::int) \<le> 0 \<and> (0::int) < 5 \<and>
   (0::int) < 5 - 0"
  using offset_sizes_previous [of "[0, 0, 5, 9]" 0] by simp

subsection \<open>The envpoint item\<close>

lemma append_values_eq: "append_values vs itemdata = itemdata @ vs"
  by (induction vs arbitrary: itemdata) simp_all

lemma append_envpoint_data_eq:
  "append_envpoint_data eps itemdata =
     itemdata @ concat (map (\<lambda>ep. time ep # curvetype ep # point_values ep) eps)"
  by (induction eps arbitrary: itemdata) (simp_all add: append_values_eq)

lemma envpoint_slice:
  "py_slice item_info (2 + int i * 6) (2 + (int i * 6 + 6)) =
     take 6 (drop (6 * i) (drop 2 item_info))"
proof -
  have "nat (2 + (int i * 6 + 6)) - nat (2 + int i * 6) = 6" by simp
  moreover have "nat (2 + int i * 6) = 6 * i + 2" by simp
  ultimately show ?thesis by (simp add: py_slice_nonneg)
qed

lemma chunk_count: "nat ((int (length item_info) - 2) div 6) = (length item_info - 2) div 6"
  by (cases "2 \<le> length item_info") (simp_all add: nat_div_distrib zdiv_int)

lemma envpoint_infos_eq:
  "envpoint_infos item_info =
     map (\<lambda>i. take 6 (drop (6 * i) (drop 2 item_info))) [0 ..< (length item_info - 2) div 6]"
  unfolding envpoint_infos_def envpoint_slice chunk_count ..

lemma concat_chunks: "concat (map (\<lambda>i. take 6 (drop (6 * i) xs)) [0 ..< n]) = take (6 * n) xs"
proof (induction n)
  case 0
  then show ?case by simp
next
  case (Suc n)
  have "6 * Suc n = 6 * n + 6" by simp
  then have "take (6 * Suc n) xs = take (6 * n) xs @ take 6 (drop (6 * n) xs)"
    by (simp only: take_add)
  with Suc show ?case by simp
qed

lemma chunk_length:
  "i < (length item_info - 2) div 6 \<Longrightarrow> length (take 6 (drop (6 * i) (drop 2 item_info))) = 6"
  by simp

lemma Envpoint_long:
  "2 \<le> length c \<Longrightarrow>
   Envpoint c = Inr \<lparr>time = hd c, curvetype = hd (tl c), point_values = tl (tl c)\<rparr>"
  by (cases c rule: Envpoint.cases) simp_all

lemma append_envpoints_long:
  "\<forall>c \<in> set cs. 2 \<le> length c \<Longrightarrow>
   append_envpoints cs eps =
     Inr (eps @ map (\<lambda>c. \<lparr>time = hd c, curvetype = hd (tl c), point_values = tl (tl c)\<rparr>) cs)"
  by (induction cs arbitrary: eps) (simp_all add: Envpoint_long)

lemma reassemble: "2 \<le> length c \<Longrightarrow> hd c # hd (tl c) # tl (tl c) = c"
  by (cases c; cases "tl c") simp_all

lemma concat_reassemble:
  "\<forall>c \<in> set cs. 2 \<le> length c \<Longrightarrow>
   concat (map (\<lambda>c. hd c # hd (tl c) # tl (tl c)) cs) = concat cs"
  by (induction cs) (simp_all add: reassemble)

lemma envpoint_item_reload:
  "\<exists>eps. load_envpoints [\<lparr>item_type = ''envpoint'', info = item_info\<rparr>] [] = Inr eps \<and>
     length eps = (length item_info - 2) div 6 \<and>
     save_envpoint_item i eps [] =
       [push_bit 16 (int i), 24 * int ((length item_info - 2) div 6)] @
       take (6 * ((length item_info - 2) div 6)) (drop 2 item_info)"
proof -
  let ?n = "(length item_info - 2) div 6"
  let ?cs = "map (\<lambda>i. take 6 (drop (6 * i) (drop 2 item_info))) [0 ..< ?n]"
  let ?eps = "map (\<lambda>c. \<lparr>time = hd c, curvetype = hd (tl c), point_values = tl (tl c)\<rparr>) ?cs"
  have long: "\<forall>c \<in> set ?cs. 2 \<le> length c"
    using chunk_length [of _ item_info] by auto
  have load: "load_envpoints [\<lparr>item_type = ''envpoint'', info = item_info\<rparr>] [] = Inr ?eps"
    using append_envpoints_long [OF long, of "[]"] by (simp add: envpoint_infos_eq)
  have "concat (map (\<lambda>ep. time ep # curvetype ep # point_values ep) ?eps) =
        concat (map (\<lambda>c. hd c # hd (tl c) # tl (tl c)) ?cs)"
    by (simp add: comp_def)
  also have "\<dots> = concat ?cs" by (rule concat_reassemble [OF long])
  also have "\<dots> = take (6 * ?n) (drop 2 item_info)" by (rule concat_chunks)
  finally have "save_envpoint_item i ?eps [] =
       [push_bit 16 (int i), 24 * int ?n] @ take (6 * ?n) (drop 2 item_info)"
    by (simp add: save_envpoint_item_def append_envpoint_data_eq)
  with load show ?thesis by (intro exI [of _ ?eps]) simp
qed

lemma whole_records:
  assumes "take 2 item_info = [a, b]" and "(length item_info - 2) mod 6 = 0"
  shows "[a, b] @ take (6 * ((length item_info - 2) div 6)) (drop 2 item_info) = item_info"
proof -
  from assms(2) have "6 * ((length item_info - 2) div 6) = length (drop 2 item_info)"
    by auto
  then have "take (6 * ((length item_info - 2) div 6)) (drop 2 item_info) = drop 2 item_info"
    by simp
  with assms(1) show ?thesis
    using append_take_drop_id [of 2 item_info] by simp
qed

text \<open>
  Claim C7, as the code has it. An envpoint item whose second leading integer is 8 (two
  integers that are no whole record follow) loads as no envpoints, and \<^verbatim>\<open>save\<close> writes the
  leading integers \<open>6<<16\<close> and \<open>0\<close> for it: the second one is not the one of the file.
\<close>

theorem envpoint_prefix_counterexample:
  "load_envpoints [\<lparr>item_type = ''envpoint'', info = [393216, 8, 1, 2]\<rparr>] [] = Inr [] \<and>
   save_envpoint_item 6 [] [] = [393216, 0] \<and>
   take 2 (save_envpoint_item 6 [] []) \<noteq> take 2 [393216, 8, 1, 2]"
  by (simp add: envpoint_infos_def save_envpoint_item_def)

text \<open>
  Claim C7, amended. Decoding an envpoint item skips exactly the two leading integers,
  splits what follows into as many whole 6-integer records as there are, and keeps
  neither the two integers nor an incomplete record at the end. Encoding writes two
  freshly computed leading integers, the index of the item type shifted left by 16 and
  24 times the number of envpoints, and then the records: a loaded item re-serializes
  with its records intact and with these computed leading integers. They are the ones
  of the file, and the whole item is re-serialized unchanged, when the file had these
  values and whole records only.
\<close>

theorem envpoint_prefix_recomputed:
  "\<exists>eps. load_envpoints [\<lparr>item_type = ''envpoint'', info = item_info\<rparr>] [] = Inr eps \<and>
     length eps = (length item_info - 2) div 6 \<and>
     save_envpoint_item i eps [] =
       [push_bit 16 (int i), 24 * int ((length item_info - 2) div 6)] @
       take (6 * ((length item_info - 2) div 6)) (drop 2 item_info) \<and>
     (take 2 item_info = [push_bit 16 (int i), 24 * int ((length item_info - 2) div 6)] \<and>
      (length item_info - 2) mod 6 = 0 \<longrightarrow> save_envpoint_item i eps [] = item_info)"
proof -
  from envpoint_item_reload [of item_info i] obtain eps where
    eps: "load_envpoints [\<lparr>item_type = ''envpoint'', info = item_info\<rparr>] [] = Inr eps"
      "length eps = (length item_info - 2) div 6"
      "save_envpoint_item i eps [] =
         [push_bit 16 (int i), 24 * int ((length item_info - 2) div 6)] @
         take (6 * ((length item_info - 2) div 6)) (drop 2 item_info)"
    by blast
  have "take 2 item_info = [push_bit 16 (int i), 24 * int ((length item_info - 2) div 6)] \<and>
      (length item_info - 2) mod 6 = 0 \<longrightarrow> save_envpoint_item i eps [] = item_info"
    using whole_records [of item_info] eps(3) by auto
  with eps show ?thesis by blast
qed

theorem envpoint_prefix_recomputed_witness:
  "take 2 [393216, 24, 10, 1, 2, 3, 4, 5 :: int] = [push_bit 16 (int 6), 24 * int ((length [393216, 24, 10, 1, 2, 3, 4, 5 :: int] - 2) div 6)] \<and>
   (length [393216, 24, 10, 1, 2, 3, 4, 5 :: int] - 2) mod 6 = 0 \<and>
   (\<exists>eps. load_envpoints [\<lparr>item_type = ''envpoint'', info = [393216, 24, 10, 1, 2, 3, 4, 5]\<rparr>] [] = Inr eps \<and>
      length eps = 1 \<and> save_envpoint_item 6 eps [] = [393216, 24, 10, 1, 2, 3, 4, 5])"
  using envpoint_prefix_recomputed [of "[393216, 24, 10, 1, 2, 3, 4, 5]" 6] by simp


subsection \<open>struct\<close>

lemma length_le_bytes: "length (le_bytes n u) = n"
  by (induction n arbitrary: u) simp_all

lemma le_value_le_bytes: "le_value (le_bytes n u) = u mod 256 ^ n"
proof (induction n arbitrary: u)
  case 0
  then show ?case by simp
next
  case (Suc n)
  have "u mod (256 * 256 ^ n) = 256 * (u div 256 mod 256 ^ n) + u mod 256"
    by (rule zmod_zmult2_eq) simp
  with Suc show ?case by simp
qed

lemma signed32_mod:
  "- 2147483648 \<le> x \<Longrightarrow> x \<le> 2147483647 \<Longrightarrow> signed32 (x mod 4294967296) = x"
proof (cases "0 \<le> x")
  case True
  assume "x \<le> 2147483647"
  with True have "x mod 4294967296 = x" by simp
  with \<open>x \<le> 2147483647\<close> show ?thesis by (simp add: signed32_def)
next
  case False
  assume "- 2147483648 \<le> x"
  with False have "x mod 4294967296 = x + 4294967296"
    using mod_add_self2 [of x 4294967296] mod_pos_pos_trivial [of "x + 4294967296" 4294967296]
    by simp
  with False \<open>- 2147483648 \<le> x\<close> show ?thesis by (simp add: signed32_def)
qed

lemma pack_int_roundtrip:
  "pack_int x = Inr b \<Longrightarrow> length b = 4 \<and> signed32 (le_value b) = x"
  by (auto simp add: pack_int_def length_le_bytes le_value_le_bytes signed32_mod split: if_splits)

lemma pack_ints_roundtrip:
  "pack_ints xs = Inr bs \<Longrightarrow> length bs = 4 * length xs \<and> unpack_ints (length xs) bs = xs"
proof (induction xs arbitrary: bs)
  case Nil
  then show ?case by simp
next
  case (Cons x xs)
  from Cons.prems obtain b bs' where
    parts: "pack_int x = Inr b" "pack_ints xs = Inr bs'" "bs = b @ bs'"
    by (auto split: sum.splits)
  from pack_int_roundtrip [OF parts(1)] Cons.IH [OF parts(2)] parts(3)
  show ?case by simp
qed

lemma read_signature:
  assumes "drop (pos f) (content f) = sig @ rest" and "length sig = 4"
  shows "read f 4 = (sig, f\<lparr>pos := pos f + 4\<rparr>)"
  using assms by (simp add: read_def Let_def)

lemma read_fields:
  assumes "drop (pos f) (content f) = sig @ s' @ rest" and "length sig = 4" and "length s' = 32"
  shows "read (f\<lparr>pos := pos f + 4\<rparr>) 32 = (s', f\<lparr>pos := pos f + 36\<rparr>)"
proof -
  have "drop (pos f + 4) (content f) = drop 4 (drop (pos f) (content f))"
    by (simp add: add.commute)
  with assms have "drop (pos f + 4) (content f) = s' @ rest" by simp
  with assms(3) show ?thesis by (simp add: read_def Let_def)
qed

lemma Header_init_signature:
  assumes "drop (pos f) (content f) = sig @ rest" and "length sig = 4"
    and "sig \<noteq> ''DATA''" and "sig \<noteq> ''ATAD''"
  shows "Header_init f = Inl (TypeError ''Invalid signature'')"
  using assms(3,4)
  by (simp add: Header_init_def read_signature [OF assms(1,2)] unpack_4c_def assms(2))

lemma Header_init_fields:
  assumes "drop (pos f) (content f) = sig @ s' @ rest" and "length sig = 4" and "length s' = 32"
    and "sig = ''DATA'' \<or> sig = ''ATAD''"
  shows "Header_init f =
     (let vals = unpack_ints 8 s' in
      if vals ! 0 \<noteq> 4 then Inl (TypeError ''Wrong version'')
      else Inr (\<lparr>version = vals ! 0,
                 header_size = vals ! 3 * 12 + (vals ! 4 + vals ! 5) * 4 + vals ! 5 * 4 + vals ! 6 + 36,
                 file_ints = Some \<lparr>size_field = vals ! 1, swaplen = vals ! 2,
                               num_item_types = vals ! 3, num_items = vals ! 4,
                               num_raw_data = vals ! 5, item_size = vals ! 6,
                               data_size = vals ! 7\<rparr>\<rparr>,
                f\<lparr>pos := pos f + 36\<rparr>))"
proof -
  have r1: "read f 4 = (sig, f\<lparr>pos := pos f + 4\<rparr>)"
    using assms(1,2) read_signature [of f sig "s' @ rest"] by simp
  have r2: "read (f\<lparr>pos := pos f + 4\<rparr>) 32 = (s', f\<lparr>pos := pos f + 36\<rparr>)"
    by (rule read_fields [OF assms(1-3)])
  have sig: "concat (map (\<lambda>c. [c]) sig) = sig" by (induction sig) simp_all
  from assms(4) show ?thesis
    by (auto simp add: Header_init_def r1 r2 unpack_4c_def assms(2) assms(3) sig unpack_i_def Let_def)
qed

lemma unpack_ints_first: "unpack_ints 8 s' ! 0 = signed32 (le_value (take 4 s'))"
  by (simp add: numeral_eq_Suc)

text \<open>
  Claim C4, as the code has it. A file that starts with \<^verbatim>\<open>'XXXX'\<close> and a file with the
  signature \<^verbatim>\<open>'DATA'\<close> and the version 3 are both rejected, with \<^verbatim>\<open>TypeError\<close>: the
  exception raised is not of a class \<^verbatim>\<open>FormatError\<close>, which tml.py does not have.
\<close>

theorem Header_init_counterexample:
  "Header_init \<lparr>content = ''XXXX'' @ replicate 32 (CHR 0x00), pos = 0\<rparr> = Inl (TypeError ''Invalid signature'') \<and>
   \<not> raises (Header_init \<lparr>content = ''XXXX'' @ replicate 32 (CHR 0x00), pos = 0\<rparr>) ''FormatError'' \<and>
   Header_init \<lparr>content = ''DATA'' @ [CHR 0x03, CHR 0x00, CHR 0x00, CHR 0x00] @ replicate 28 (CHR 0x00), pos = 0\<rparr>
     = Inl (TypeError ''Wrong version'') \<and>
   \<not> raises (Header_init \<lparr>content = ''DATA'' @ [CHR 0x03, CHR 0x00, CHR 0x00, CHR 0x00] @ replicate 28 (CHR 0x00), pos = 0\<rparr>) ''FormatError''"
proof -
  have 1: "Header_init \<lparr>content = ''XXXX'' @ replicate 32 (CHR 0x00), pos = 0\<rparr> = Inl (TypeError ''Invalid signature'')"
    by (rule Header_init_signature [where sig = "''XXXX''" and rest = "replicate 32 (CHR 0x00)"]) simp_all
  have 2: "Header_init \<lparr>content = ''DATA'' @ [CHR 0x03, CHR 0x00, CHR 0x00, CHR 0x00] @ replicate 28 (CHR 0x00), pos = 0\<rparr>
     = Inl (TypeError ''Wrong version'')"
    using Header_init_fields [where f = "\<lparr>content = ''DATA'' @ [CHR 0x03, CHR 0x00, CHR 0x00, CHR 0x00] @ replicate 28 (CHR 0x00), pos = 0\<rparr>"
        and sig = "''DATA''" and s' = "[CHR 0x03, CHR 0x00, CHR 0x00, CHR 0x00] @ replicate 28 (CHR 0x00)" and rest = "[]"]
    by (simp add: unpack_ints_first Let_def signed32_def)
  from 1 2 show ?thesis by (simp add: raises_def)
qed

text \<open>
  Claim C4, amended. Reading a header whose four signature bytes are neither \<^verbatim>\<open>'DATA'\<close>
  nor \<^verbatim>\<open>'ATAD'\<close> fails with \<^verbatim>\<open>TypeError('Invalid signature')\<close>, and reading one with an
  accepted signature, 32 more bytes and a version field other than 4 fails with
  \<^verbatim>\<open>TypeError('Wrong version')\<close>: the exception class is \<^verbatim>\<open>TypeError\<close>.
\<close>

theorem Header_init_rejects:
  "(drop (pos f) (content f) = sig @ rest \<and> length sig = 4 \<and> sig \<noteq> ''DATA'' \<and> sig \<noteq> ''ATAD''
      \<longrightarrow> Header_init f = Inl (TypeError ''Invalid signature'') \<and>
          raises (Header_init f) ''TypeError'') \<and>
   (drop (pos f) (content f) = sig @ ver @ others @ rest \<and> (sig = ''DATA'' \<or> sig = ''ATAD'') \<and>
    length ver = 4 \<and> length others = 28 \<and> signed32 (le_value ver) \<noteq> 4
      \<longrightarrow> Header_init f = Inl (TypeError ''Wrong version'') \<and>
          raises (Header_init f) ''TypeError'')"
proof (intro conjI impI)
  assume a: "drop (pos f) (content f) = sig @ rest \<and> length sig = 4 \<and> sig \<noteq> ''DATA'' \<and> sig \<noteq> ''ATAD''"
  then show s: "Header_init f = Inl (TypeError ''Invalid signature'')"
    using Header_init_signature [of f sig rest] by blast
  then show "raises (Header_init f) ''TypeError''" by (simp add: raises_def)
next
  assume a: "drop (pos f) (content f) = sig @ ver @ others @ rest \<and> (sig = ''DATA'' \<or> sig = ''ATAD'') \<and>
    length ver = 4 \<and> length others = 28 \<and> signed32 (le_value ver) \<noteq> 4"
  then have "drop (pos f) (content f) = sig @ (ver @ others) @ rest" "length sig = 4"
    "length (ver @ others) = 32" "sig = ''DATA'' \<or> sig = ''ATAD''" by auto
  from Header_init_fields [OF this] a
  show v: "Header_init f = Inl (TypeError ''Wrong version'')"
    by (simp add: unpack_ints_first Let_def)
  then show "raises (Header_init f) ''TypeError''" by (simp add: raises_def)
qed


theorem Header_init_rejects_witness:
  "Header_init \<lparr>content = ''TWMP'', pos = 0\<rparr> = Inl (TypeError ''Invalid signature'') \<and>
   raises (Header_init \<lparr>content = ''TWMP'', pos = 0\<rparr>) ''TypeError'' \<and>
   signed32 (le_value [CHR 0x05, CHR 0x00, CHR 0x00, CHR 0x00]) = 5 \<and>
   Header_init
     \<lparr>content = ''ATAD'' @ [CHR 0x05, CHR 0x00, CHR 0x00, CHR 0x00] @ replicate 28 (CHR 0x00) @ ''rest'',
      pos = 0\<rparr> = Inl (TypeError ''Wrong version'') \<and>
   raises (Header_init
     \<lparr>content = ''ATAD'' @ [CHR 0x05, CHR 0x00, CHR 0x00, CHR 0x00] @ replicate 28 (CHR 0x00) @ ''rest'',
      pos = 0\<rparr>) ''TypeError''"
  using Header_init_rejects [where f = "\<lparr>content = ''TWMP'', pos = 0\<rparr>" and sig = "''TWMP''"
      and rest = "[]" and ver = "[]" and others = "[]"]
    Header_init_rejects [where
      f = "\<lparr>content = ''ATAD'' @ [CHR 0x05, CHR 0x00, CHR 0x00, CHR 0x00] @ replicate 28 (CHR 0x00) @ ''rest'',
             pos = 0\<rparr>"
      and sig = "''ATAD''" and ver = "[CHR 0x05, CHR 0x00, CHR 0x00, CHR 0x00]"
      and others = "replicate 28 (CHR 0x00)" and rest = "''rest''"]
  by (simp add: signed32_def raises_def)

subsection \<open>Header.write\<close>

lemma collect_datas_eq:
  "collect_datas ds datas dsize = (datas @ ds, dsize + (\<Sum>d\<leftarrow>ds. int (length d)))"
  by (induction ds arbitrary: datas dsize) simp_all

lemma layers_size_loop_sum:
  "layers_size_loop c ls n = Inr m \<Longrightarrow>
   m = n + (\<Sum>l\<leftarrow>ls. if py_index (LAYER_TYPES c) (type l) = Inr ''tile''
                       then TileLayer_size c else QuadLayer_size c)"
proof (induction ls arbitrary: n)
  case Nil
  then show ?case by simp
next
  case (Cons l ls)
  from Cons.prems obtain name where name: "py_index (LAYER_TYPES c) (type l) = Inr name"
    by (auto split: sum.splits)
  show ?case
  proof (cases "name = ''tile''")
    case True
    with Cons.prems name have "layers_size_loop c ls (n + TileLayer_size c) = Inr m" by simp
    from Cons.IH [OF this] name True show ?thesis by simp
  next
    case False
    with Cons.prems name have "layers_size_loop c ls (n + QuadLayer_size c) = Inr m" by simp
    from Cons.IH [OF this] name False show ?thesis by simp
  qed
qed

lemma count_item_types_filter:
  "count_item_types t tys n = Inr m \<Longrightarrow>
   m = n + int (length (filter (\<lambda>ty. ty \<noteq> ''envpoint'' \<and> typelist_len t (ty @ ''s'') \<noteq> Inr 0) tys))"
proof (induction tys arbitrary: n)
  case Nil
  then show ?case by simp
next
  case (Cons ty tys)
  show ?case
  proof (cases "ty = ''envpoint''")
    case True
    with Cons.prems have "count_item_types t tys n = Inr m" by simp
    from Cons.IH [OF this] True show ?thesis by simp
  next
    case False
    with Cons.prems obtain len where len: "typelist_len t (ty @ ''s'') = Inr len"
      by (auto split: sum.splits)
    with Cons.prems False
    have "count_item_types t tys (if len \<noteq> 0 then n + 1 else n) = Inr m" by simp
    from Cons.IH [OF this] len False show ?thesis by simp
  qed
qed

lemma Teemap_layers_header [simp]: "Teemap_layers (t\<lparr>header := h\<rparr>) = Teemap_layers t"
  by (simp add: Teemap_layers_def)

lemma typelist_len_header [simp]: "typelist_len (t\<lparr>header := h\<rparr>) name = typelist_len t name"
  by (simp add: typelist_len_def)

lemma count_item_types_header [simp]:
  "count_item_types (t\<lparr>header := h\<rparr>) tys n = count_item_types t tys n"
  by (induction tys arbitrary: n) (simp_all split: sum.splits)

lemma header_values_header: "header_values c (t\<lparr>header := h\<rparr>) = header_values c t"
  by (simp add: header_values_def
      cong del: option.case_cong_weak sum.case_cong_weak prod.case_cong_weak)

lemma header_values_fields:
  assumes "header_values c t = Inr vals"
  shows "\<exists>size' swaplen' nit ni nrd isz dsz cd.
     vals = [4, size', swaplen', nit, ni, nrd, isz, dsz] \<and>
     size' = 36 + 12 * nit + 4 * (ni + 2 * nrd) + isz + dsz - 16 \<and>
     swaplen' = size' - dsz \<and>
     compressed_data t = Some cd \<and>
     nrd = int (length cd) \<and>
     dsz = (\<Sum>d\<leftarrow>cd. int (length d)) \<and>
     ni = int (length (envelopes t) + length (groups t) + length (Teemap_layers t)
               + length (images t)) + 2 \<and>
     nit = 2 + int (length (filter (\<lambda>ty. ty \<noteq> ''envpoint'' \<and> typelist_len t (ty @ ''s'') \<noteq> Inr 0)
                              (drop 2 (ITEM_TYPES c)))) \<and>
     isz = 12 + int (length (groups t)) * Group_size c
           + (\<Sum>l\<leftarrow>Teemap_layers t. if py_index (LAYER_TYPES c) (type l) = Inr ''tile''
                                      then TileLayer_size c else QuadLayer_size c)
           + int (length (envelopes t)) * Envelope_size c
           + int (length (images t)) * Image_size c
           + (int (length (envpoints t)) * 24 + 8)"
proof -
  from assms obtain cd where cd: "compressed_data t = Some cd"
    by (auto simp add: header_values_def split: option.splits)
  from assms cd obtain lsz where lsz: "layers_size_loop c (Teemap_layers t) 0 = Inr lsz"
    by (auto simp add: header_values_def collect_datas_eq split: sum.splits)
  from assms cd lsz obtain nit where nit: "count_item_types t (drop 2 (ITEM_TYPES c)) 2 = Inr nit"
    by (auto simp add: header_values_def collect_datas_eq Let_def split: sum.splits)
  define dsz where "dsz = (\<Sum>d\<leftarrow>cd. int (length d))"
  define ni where "ni = int (length (envelopes t) + length (groups t) + length (Teemap_layers t)
               + length (images t)) + 2"
  define isz where "isz = 12 + int (length (groups t)) * Group_size c + lsz
           + int (length (envelopes t)) * Envelope_size c
           + int (length (images t)) * Image_size c
           + (int (length (envpoints t)) * 24 + 8)"
  define size' where "size' = 36 + 12 * nit + 4 * (ni + 2 * int (length cd)) + isz + dsz - 16"
  from assms have vals: "vals = [4, size', size' - dsz, nit, ni, int (length cd), isz, dsz]"
    unfolding header_values_def cd lsz nit
    by (auto simp add: collect_datas_eq Let_def dsz_def ni_def isz_def size'_def algebra_simps)
  have "lsz = (\<Sum>l\<leftarrow>Teemap_layers t. if py_index (LAYER_TYPES c) (type l) = Inr ''tile''
                                      then TileLayer_size c else QuadLayer_size c)"
    using layers_size_loop_sum [OF lsz] by simp
  moreover have "nit = 2 + int (length (filter (\<lambda>ty. ty \<noteq> ''envpoint'' \<and> typelist_len t (ty @ ''s'') \<noteq> Inr 0)
                              (drop 2 (ITEM_TYPES c))))"
    using count_item_types_filter [OF nit] by simp
  ultimately show ?thesis
    using vals cd size'_def dsz_def ni_def isz_def by blast
qed


text \<open>
  Claim C2. Whenever \<^verbatim>\<open>Header.write\<close> writes a header, the 36 bytes read back by
  \<^verbatim>\<open>Header.__init__\<close> give fields with
  \<open>size = 36 + 12 * num_item_types + 4 * (num_items + 2 * num_raw_data) + item_size + data_size - 16\<close>
  and \<open>swaplen = size - data_size\<close>. Every field is computed from the lists of the map as
  they are at the call: the number and the lengths of the compressed data blocks, the
  number of envelopes, groups, layers and images, the item types whose list is not
  empty, and the item sizes. The header stored in the map, with the values of an earlier
  \<^verbatim>\<open>load\<close>, has no influence on the bytes written.
\<close>

theorem Header_write_formula:
  assumes "Header_write c t = Inr bs"
  shows "\<exists>ints cd.
     Header_init \<lparr>content = bs @ rest, pos = 0\<rparr> =
       Inr (\<lparr>version = 4, header_size = size_field ints - data_size ints + 16,
              file_ints = Some ints\<rparr>,
            \<lparr>content = bs @ rest, pos = 36\<rparr>) \<and>
     size_field ints = 36 + 12 * num_item_types ints
                       + 4 * (num_items ints + 2 * num_raw_data ints)
                       + item_size ints + data_size ints - 16 \<and>
     swaplen ints = size_field ints - data_size ints \<and>
     compressed_data t = Some cd \<and>
     num_raw_data ints = int (length cd) \<and>
     data_size ints = (\<Sum>d\<leftarrow>cd. int (length d)) \<and>
     num_items ints = int (length (envelopes t) + length (groups t) + length (Teemap_layers t)
                          + length (images t)) + 2 \<and>
     num_item_types ints =
       2 + int (length (filter (\<lambda>ty. ty \<noteq> ''envpoint'' \<and> typelist_len t (ty @ ''s'') \<noteq> Inr 0)
                         (drop 2 (ITEM_TYPES c)))) \<and>
     item_size ints = 12 + int (length (groups t)) * Group_size c
           + (\<Sum>l\<leftarrow>Teemap_layers t. if py_index (LAYER_TYPES c) (type l) = Inr ''tile''
                                      then TileLayer_size c else QuadLayer_size c)
           + int (length (envelopes t)) * Envelope_size c
           + int (length (images t)) * Image_size c
           + (int (length (envpoints t)) * 24 + 8) \<and>
     Header_write c (t\<lparr>header := h\<rparr>) = Inr bs"
proof -
  from assms obtain vals packed where
    hv: "header_values c t = Inr vals" and pk: "pack_ints vals = Inr packed"
    and bs: "bs = ''DATA'' @ packed"
    by (auto simp add: Header_write_def split: sum.splits)
  from header_values_fields [OF hv] obtain size' swaplen' nit ni nrd isz dsz cd where
    vals: "vals = [4, size', swaplen', nit, ni, nrd, isz, dsz]"
    and rel: "size' = 36 + 12 * nit + 4 * (ni + 2 * nrd) + isz + dsz - 16"
      "swaplen' = size' - dsz"
      "compressed_data t = Some cd"
      "nrd = int (length cd)"
      "dsz = (\<Sum>d\<leftarrow>cd. int (length d))"
      "ni = int (length (envelopes t) + length (groups t) + length (Teemap_layers t)
               + length (images t)) + 2"
      "nit = 2 + int (length (filter (\<lambda>ty. ty \<noteq> ''envpoint'' \<and> typelist_len t (ty @ ''s'') \<noteq> Inr 0)
                              (drop 2 (ITEM_TYPES c))))"
      "isz = 12 + int (length (groups t)) * Group_size c
           + (\<Sum>l\<leftarrow>Teemap_layers t. if py_index (LAYER_TYPES c) (type l) = Inr ''tile''
                                      then TileLayer_size c else QuadLayer_size c)
           + int (length (envelopes t)) * Envelope_size c
           + int (length (images t)) * Image_size c
           + (int (length (envpoints t)) * 24 + 8)"
    by blast
  have "length vals = 8" by (simp add: vals)
  with pack_ints_roundtrip [OF pk]
  have len: "length packed = 32" and un: "unpack_ints 8 packed = vals" by simp_all
  define ints where "ints = \<lparr>size_field = size', swaplen = swaplen', num_item_types = nit,
     num_items = ni, num_raw_data = nrd, item_size = isz, data_size = dsz\<rparr>"
  have "Header_init \<lparr>content = bs @ rest, pos = 0\<rparr> =
       Inr (\<lparr>version = 4, header_size = size_field ints - data_size ints + 16,
              file_ints = Some ints\<rparr>,
            \<lparr>content = bs @ rest, pos = 36\<rparr>)"
    using Header_init_fields [of "\<lparr>content = bs @ rest, pos = 0\<rparr>" "''DATA''" packed rest] len
    by (simp add: bs un vals ints_def rel(1))
  moreover have "Header_write c (t\<lparr>header := h\<rparr>) = Inr bs"
    using assms by (simp add: Header_write_def header_values_header)
  ultimately show ?thesis
    using rel by (intro exI [of _ ints] exI [of _ cd]) (simp add: ints_def)
qed


theorem Header_write_formula_witness:
  "Header_write constants_ex (two_group_map\<lparr>compressed_data := Some [''abc'', ''de'']\<rparr>) =
     Inr (''DATA'' @ le_bytes 4 4 @ le_bytes 4 373 @ le_bytes 4 368 @ le_bytes 4 4 @ le_bytes 4 6
           @ le_bytes 4 2 @ le_bytes 4 260 @ le_bytes 4 5) \<and>
   (\<exists>ints. Header_init
       \<lparr>content = (''DATA'' @ le_bytes 4 4 @ le_bytes 4 373 @ le_bytes 4 368 @ le_bytes 4 4
                   @ le_bytes 4 6 @ le_bytes 4 2 @ le_bytes 4 260 @ le_bytes 4 5) @ ''items'',
        pos = 0\<rparr> =
       Inr (\<lparr>version = 4, header_size = size_field ints - data_size ints + 16,
              file_ints = Some ints\<rparr>,
            \<lparr>content = (''DATA'' @ le_bytes 4 4 @ le_bytes 4 373 @ le_bytes 4 368 @ le_bytes 4 4
                   @ le_bytes 4 6 @ le_bytes 4 2 @ le_bytes 4 260 @ le_bytes 4 5) @ ''items'',
             pos = 36\<rparr>) \<and>
     size_field ints = 36 + 12 * num_item_types ints
                       + 4 * (num_items ints + 2 * num_raw_data ints)
                       + item_size ints + data_size ints - 16 \<and>
     swaplen ints = size_field ints - data_size ints \<and>
     num_raw_data ints = 2 \<and> data_size ints = 5 \<and> num_items ints = 6)"
proof -
  have h: "Header_write constants_ex (two_group_map\<lparr>compressed_data := Some [''abc'', ''de'']\<rparr>) =
     Inr (''DATA'' @ le_bytes 4 4 @ le_bytes 4 373 @ le_bytes 4 368 @ le_bytes 4 4 @ le_bytes 4 6
           @ le_bytes 4 2 @ le_bytes 4 260 @ le_bytes 4 5)"
    by code_simp
  from Header_write_formula [OF h, of "''items''" Header_new] obtain ints cd where
    r: "Header_init
       \<lparr>content = (''DATA'' @ le_bytes 4 4 @ le_bytes 4 373 @ le_bytes 4 368 @ le_bytes 4 4
                   @ le_bytes 4 6 @ le_bytes 4 2 @ le_bytes 4 260 @ le_bytes 4 5) @ ''items'',
        pos = 0\<rparr> =
       Inr (\<lparr>version = 4, header_size = size_field ints - data_size ints + 16,
              file_ints = Some ints\<rparr>,
            \<lparr>content = (''DATA'' @ le_bytes 4 4 @ le_bytes 4 373 @ le_bytes 4 368 @ le_bytes 4 4
                   @ le_bytes 4 6 @ le_bytes 4 2 @ le_bytes 4 260 @ le_bytes 4 5) @ ''items'',
             pos = 36\<rparr>)"
     "size_field ints = 36 + 12 * num_item_types ints
                       + 4 * (num_items ints + 2 * num_raw_data ints)
                       + item_size ints + data_size ints - 16"
     "swaplen ints = size_field ints - data_size ints"
     "compressed_data (two_group_map\<lparr>compressed_data := Some [''abc'', ''de'']\<rparr>) = Some cd"
     "num_raw_data ints = int (length cd)"
     "data_size ints = (\<Sum>d\<leftarrow>cd. int (length d))"
     "num_items ints = int (length (envelopes (two_group_map\<lparr>compressed_data := Some [''abc'', ''de'']\<rparr>))
        + length (groups (two_group_map\<lparr>compressed_data := Some [''abc'', ''de'']\<rparr>))
        + length (Teemap_layers (two_group_map\<lparr>compressed_data := Some [''abc'', ''de'']\<rparr>))
        + length (images (two_group_map\<lparr>compressed_data := Some [''abc'', ''de'']\<rparr>))) + 2"
    by blast
  from r(4) have cd: "cd = [''abc'', ''de'']" by simp
  have "num_raw_data ints = 2" "data_size ints = 5" using r(5,6) by (simp_all add: cd)
  moreover have "num_items ints = 6"
    using r(7) by (simp add: two_group_map_def Teemap_layers_def background_group_ex_def game_group_ex_def)
  ultimately show ?thesis using h r(1-3) by blast
qed

subsection \<open>The item types of save\<close>

lemma item_types_loop_header:
  "item_types_loop (t\<lparr>header := h\<rparr>) xs acc count = item_types_loop t xs acc count"
  by (induction xs arbitrary: acc count) (auto split: sum.splits)

lemma occurrences_header: "occurrences (t\<lparr>header := h\<rparr>) ty = occurrences t ty"
  by (simp add: occurrences_def)

lemma item_types_loop_step:
  assumes "item_types_loop t ((i, ty) # xs) acc count = Inr (res, cnt)"
  shows "(occurrences t ty = 0 \<and> item_types_loop t xs acc count = Inr (res, cnt)) \<or>
         (0 < occurrences t ty \<and>
          item_types_loop t xs
            (acc @ [\<lparr>entry_type = i, entry_start = count, entry_num = occurrences t ty\<rparr>])
            (count + occurrences t ty) = Inr (res, cnt))"
proof (cases "ty = ''info''")
  case True
  with assms show ?thesis by (simp add: occurrences_def)
next
  case False
  show ?thesis
  proof (cases "ty = ''version'' \<or> ty = ''envpoint''")
    case True
    with assms False show ?thesis by (auto simp add: occurrences_def)
  next
    case other: False
    with assms False obtain len where len: "typelist_len t (ty @ ''s'') = Inr len"
      by (auto split: sum.splits)
    with assms False other show ?thesis
      by (cases "len = 0") (auto simp add: occurrences_def)
  qed
qed

lemma item_types_loop_entries:
  assumes "item_types_loop t xs acc count = Inr (res, cnt)"
  shows "\<exists>new. res = acc @ new \<and>
     map (\<lambda>e. (entry_type e, entry_num e)) new =
       map (\<lambda>(i, ty). (i, occurrences t ty)) (filter (\<lambda>(i, ty). 0 < occurrences t ty) xs) \<and>
     (\<forall>k < length new. entry_start (new ! k) = count + sum_list (map entry_num (take k new)))"
  using assms
proof (induction xs arbitrary: acc count)
  case Nil
  then show ?case by simp
next
  case (Cons x xs)
  obtain i ty where x: "x = (i, ty)" by (cases x)
  from item_types_loop_step [OF Cons.prems [unfolded x]]
  show ?case
  proof
    assume skip: "occurrences t ty = 0 \<and> item_types_loop t xs acc count = Inr (res, cnt)"
    then have "item_types_loop t xs acc count = Inr (res, cnt)" by simp
    from Cons.IH [OF this] skip x show ?thesis by simp
  next
    let ?e = "\<lparr>entry_type = i, entry_start = count, entry_num = occurrences t ty\<rparr>"
    assume emit: "0 < occurrences t ty \<and>
      item_types_loop t xs (acc @ [?e]) (count + occurrences t ty) = Inr (res, cnt)"
    then have "item_types_loop t xs (acc @ [?e]) (count + occurrences t ty) = Inr (res, cnt)"
      by simp
    from Cons.IH [OF this] obtain new where new: "res = (acc @ [?e]) @ new"
      "map (\<lambda>e. (entry_type e, entry_num e)) new =
         map (\<lambda>(i, ty). (i, occurrences t ty)) (filter (\<lambda>(i, ty). 0 < occurrences t ty) xs)"
      "\<forall>k < length new. entry_start (new ! k) =
         count + occurrences t ty + sum_list (map entry_num (take k new))"
      by blast
    have "\<forall>k < length (?e # new). entry_start ((?e # new) ! k) =
            count + sum_list (map entry_num (take k (?e # new)))"
    proof (intro allI impI)
      fix k assume "k < length (?e # new)"
      with new(3) show "entry_start ((?e # new) ! k) =
            count + sum_list (map entry_num (take k (?e # new)))"
        by (cases k) simp_all
    qed
    with new(1,2) emit x show ?thesis
      by (intro exI [of _ "?e # new"]) simp
  qed
qed

lemma sorted_entry_types:
  "sorted_wrt (<) (map fst (filter P (enumerate n xs)))"
proof -
  have "sorted_wrt (<) (map fst (enumerate n xs))"
    by (simp add: map_fst_enumerate sorted_wrt_upt)
  then have "sorted_wrt (\<lambda>a b. fst a < fst b) (enumerate n xs)"
    by (simp only: sorted_wrt_map)
  then have "sorted_wrt (\<lambda>a b. fst a < fst b) (filter P (enumerate n xs))"
    by (rule sorted_wrt_filter)
  then show ?thesis by (simp only: sorted_wrt_map)
qed

text \<open>
  The loop raises only when a list is missing: with every list in place, \<^verbatim>\<open>save\<close> builds
  a directory.
\<close>

lemma item_types_loop_total:
  assumes "\<forall>p \<in> set xs. snd p \<noteq> ''info'' \<and> snd p \<noteq> ''version'' \<and> snd p \<noteq> ''envpoint''
             \<longrightarrow> typelist_len t (snd p @ ''s'') \<noteq> Inl AttributeError"
  shows "\<exists>res. item_types_loop t xs acc count = Inr res"
  using assms
proof (induction xs arbitrary: acc count)
  case Nil
  show ?case by simp
next
  case (Cons x xs)
  obtain i ty where x: "x = (i, ty)" by (cases x)
  have rest: "\<forall>p \<in> set xs. snd p \<noteq> ''info'' \<and> snd p \<noteq> ''version'' \<and> snd p \<noteq> ''envpoint''
             \<longrightarrow> typelist_len t (snd p @ ''s'') \<noteq> Inl AttributeError"
    using Cons.prems by (meson list.set_intros(2))
  note IH = Cons.IH [OF rest]
  show ?case
  proof (cases "ty = ''info''")
    case True
    have "item_types_loop t (x # xs) acc count = item_types_loop t xs acc count"
      unfolding x True by simp
    with IH [of acc count] show ?thesis by simp
  next
    case not_info: False
    show ?thesis
    proof (cases "ty = ''version'' \<or> ty = ''envpoint''")
      case True
      let ?e = "\<lparr>entry_type = i, entry_start = count, entry_num = 1\<rparr>"
      from True not_info
      have "item_types_loop t (x # xs) acc count = item_types_loop t xs (acc @ [?e]) (count + 1)"
        unfolding x by auto
      with IH [of "acc @ [?e]" "count + 1"] show ?thesis by simp
    next
      case False
      have "x \<in> set (x # xs)" by simp
      with Cons.prems have "snd x \<noteq> ''info'' \<and> snd x \<noteq> ''version'' \<and> snd x \<noteq> ''envpoint''
             \<longrightarrow> typelist_len t (snd x @ ''s'') \<noteq> Inl AttributeError" by blast
      with not_info False have "typelist_len t (ty @ ''s'') \<noteq> Inl AttributeError"
        by (simp add: x)
      then obtain len where len: "typelist_len t (ty @ ''s'') = Inr len"
        by (auto simp add: typelist_len_def split: if_splits option.splits)
      let ?e = "\<lparr>entry_type = i, entry_start = count, entry_num = int len\<rparr>"
      show ?thesis
      proof (cases "len = 0")
        case True
        with not_info False len
        have "item_types_loop t (x # xs) acc count = item_types_loop t xs acc count"
          unfolding x by simp
        with IH [of acc count] show ?thesis by simp
      next
        case nonempty: False
        with not_info False len
        have "item_types_loop t (x # xs) acc count =
                item_types_loop t xs (acc @ [?e]) (count + int len)"
          unfolding x by simp
        with IH [of "acc @ [?e]" "count + int len"] show ?thesis by simp
      qed
    qed
  qed
qed

lemma save_item_types_total:
  assumes "\<forall>ty \<in> set (ITEM_TYPES c). ty \<noteq> ''info'' \<and> ty \<noteq> ''version'' \<and> ty \<noteq> ''envpoint''
             \<longrightarrow> typelist_len t (ty @ ''s'') \<noteq> Inl AttributeError"
  shows "\<exists>es. save_item_types c t = Inr es"
proof -
  have "\<forall>p \<in> set (enumerate 0 (ITEM_TYPES c)).
      snd p \<noteq> ''info'' \<and> snd p \<noteq> ''version'' \<and> snd p \<noteq> ''envpoint''
        \<longrightarrow> typelist_len t (snd p @ ''s'') \<noteq> Inl AttributeError"
  proof
    fix p assume "p \<in> set (enumerate 0 (ITEM_TYPES c))"
    then have "snd p \<in> set (ITEM_TYPES c)"
      using nth_mem [of "fst p" "ITEM_TYPES c"] by (auto simp add: in_set_enumerate_eq)
    with assms show "snd p \<noteq> ''info'' \<and> snd p \<noteq> ''version'' \<and> snd p \<noteq> ''envpoint''
        \<longrightarrow> typelist_len t (snd p @ ''s'') \<noteq> Inl AttributeError" by blast
  qed
  from item_types_loop_total [OF this, of "[]" 0]
  obtain res where "item_types_loop t (enumerate 0 (ITEM_TYPES c)) [] 0 = Inr res" by blast
  then show ?thesis by (cases res) (simp add: save_item_types_def)
qed

text \<open>
  Claim C8. The directory that \<^verbatim>\<open>save\<close> builds is the enumeration of \<^verbatim>\<open>ITEM_TYPES\<close>,
  restricted to the item types with at least one occurrence in the map, each with its
  index and its number of occurrences: every entry is for an item type that occurs, an
  item type without occurrences has no entry, the entries are in the order of
  \<^verbatim>\<open>ITEM_TYPES\<close> (their type indices increase strictly), the start index of an entry is
  the sum of the counts of the entries before it, and nothing depends on the header
  stored in the map. The version item and the envpoint item are always written, once
  each, so these two types occur once in every map.
\<close>

theorem save_item_types_directory:
  assumes "save_item_types c t = Inr es"
  shows "map (\<lambda>e. (entry_type e, entry_num e)) es =
           map (\<lambda>(i, ty). (i, occurrences t ty))
             (filter (\<lambda>(i, ty). 0 < occurrences t ty) (enumerate 0 (ITEM_TYPES c))) \<and>
         (\<forall>e \<in> set es. entry_type e < length (ITEM_TYPES c) \<and>
             entry_num e = occurrences t (ITEM_TYPES c ! entry_type e) \<and> 0 < entry_num e) \<and>
         (\<forall>i < length (ITEM_TYPES c).
             i \<in> entry_type ` set es \<longleftrightarrow> 0 < occurrences t (ITEM_TYPES c ! i)) \<and>
         sorted_wrt (<) (map entry_type es) \<and>
         (\<forall>k < length es. entry_start (es ! k) = sum_list (map entry_num (take k es))) \<and>
         save_item_types c (t\<lparr>header := h\<rparr>) = Inr es"
proof -
  let ?xs = "enumerate 0 (ITEM_TYPES c)"
  let ?P = "\<lambda>(i, ty). 0 < occurrences t ty"
  from assms obtain cnt where loop: "item_types_loop t ?xs [] 0 = Inr (es, cnt)"
    by (auto simp add: save_item_types_def split: sum.splits)
  from item_types_loop_entries [OF loop] have
    entries: "map (\<lambda>e. (entry_type e, entry_num e)) es =
        map (\<lambda>(i, ty). (i, occurrences t ty)) (filter ?P ?xs)"
    and starts: "\<forall>k < length es. entry_start (es ! k) = sum_list (map entry_num (take k es))"
    by auto
  have pairs: "(\<lambda>e. (entry_type e, entry_num e)) ` set es =
        (\<lambda>(i, ty). (i, occurrences t ty)) ` {p \<in> set ?xs. ?P p}"
    using arg_cong [OF entries, of set] by simp
  have each: "\<forall>e \<in> set es. entry_type e < length (ITEM_TYPES c) \<and>
             entry_num e = occurrences t (ITEM_TYPES c ! entry_type e) \<and> 0 < entry_num e"
  proof
    fix e assume "e \<in> set es"
    then have "(entry_type e, entry_num e) \<in> (\<lambda>e. (entry_type e, entry_num e)) ` set es"
      by (rule imageI)
    with pairs obtain i ty where "(i, ty) \<in> set ?xs" "0 < occurrences t ty"
      "entry_type e = i" "entry_num e = occurrences t ty" by auto
    then show "entry_type e < length (ITEM_TYPES c) \<and>
             entry_num e = occurrences t (ITEM_TYPES c ! entry_type e) \<and> 0 < entry_num e"
      by (auto simp add: in_set_enumerate_eq)
  qed
  have present: "\<forall>i < length (ITEM_TYPES c).
             i \<in> entry_type ` set es \<longleftrightarrow> 0 < occurrences t (ITEM_TYPES c ! i)"
  proof (intro allI impI iffI)
    fix i assume "i < length (ITEM_TYPES c)" "i \<in> entry_type ` set es"
    with each show "0 < occurrences t (ITEM_TYPES c ! i)" by auto
  next
    fix i assume i: "i < length (ITEM_TYPES c)" "0 < occurrences t (ITEM_TYPES c ! i)"
    then have "(i, ITEM_TYPES c ! i) \<in> {p \<in> set ?xs. ?P p}"
      by (simp add: in_set_enumerate_eq)
    then have "(i, occurrences t (ITEM_TYPES c ! i)) \<in> (\<lambda>(i, ty). (i, occurrences t ty)) ` {p \<in> set ?xs. ?P p}"
      by (rule rev_image_eqI) simp
    with pairs have "(i, occurrences t (ITEM_TYPES c ! i)) \<in> (\<lambda>e. (entry_type e, entry_num e)) ` set es"
      by simp
    then obtain e where "e \<in> set es" "entry_type e = i" by auto
    then show "i \<in> entry_type ` set es" by auto
  qed
  have "map entry_type es = map fst (map (\<lambda>e. (entry_type e, entry_num e)) es)"
    by (simp add: comp_def)
  also have "\<dots> = map fst (filter ?P ?xs)"
    by (simp add: entries comp_def case_prod_beta)
  finally have sorted: "sorted_wrt (<) (map entry_type es)"
    by (simp add: sorted_entry_types)
  have "save_item_types c (t\<lparr>header := h\<rparr>) = Inr es"
    using assms by (simp add: save_item_types_def item_types_loop_header)
  with entries each present sorted starts show ?thesis by blast
qed

theorem save_item_types_directory_witness:
  "save_item_types constants_ex two_group_map =
     Inr [\<lparr>entry_type = 0, entry_start = 0, entry_num = 1\<rparr>,
          \<lparr>entry_type = 4, entry_start = 1, entry_num = 2\<rparr>,
          \<lparr>entry_type = 5, entry_start = 3, entry_num = 2\<rparr>,
          \<lparr>entry_type = 6, entry_start = 5, entry_num = 1\<rparr>] \<and>
   save_item_types constants_ex (two_group_map\<lparr>header := \<lparr>version = 4, header_size = 400,
       file_ints = Some \<lparr>size_field = 0, swaplen = 0, num_item_types = 7, num_items = 0,
                          num_raw_data = 0, item_size = 0, data_size = 0\<rparr>\<rparr>\<rparr>) =
     Inr [\<lparr>entry_type = 0, entry_start = 0, entry_num = 1\<rparr>,
          \<lparr>entry_type = 4, entry_start = 1, entry_num = 2\<rparr>,
          \<lparr>entry_type = 5, entry_start = 3, entry_num = 2\<rparr>,
          \<lparr>entry_type = 6, entry_start = 5, entry_num = 1\<rparr>] \<and>
   occurrences two_group_map ''image'' = 0 \<and> occurrences two_group_map ''envelope'' = 0 \<and>
   occurrences two_group_map ''group'' = 2 \<and> occurrences two_group_map ''layer'' = 2"
proof -
  have h: "save_item_types constants_ex two_group_map =
     Inr [\<lparr>entry_type = 0, entry_start = 0, entry_num = 1\<rparr>,
          \<lparr>entry_type = 4, entry_start = 1, entry_num = 2\<rparr>,
          \<lparr>entry_type = 5, entry_start = 3, entry_num = 2\<rparr>,
          \<lparr>entry_type = 6, entry_start = 5, entry_num = 1\<rparr>]"
    by code_simp
  have "occurrences two_group_map ''image'' = 0" "occurrences two_group_map ''envelope'' = 0"
    "occurrences two_group_map ''group'' = 2" "occurrences two_group_map ''layer'' = 2"
    by code_simp+
  with h save_item_types_directory [OF h] show ?thesis by blast
qed

end
